theory Spec2Isabelle
  imports Complex_Main
begin

section \<open>Strings\<close>

text \<open>
  A Python \<open>str\<close> is a sequence of code points. The model takes the code points
  0..255 (one \<open>char\<close> each), which hold every character the patterns, keywords and
  literals of the two modules name. The character classes below are Python's on that
  range: \<open>str.isspace\<close> (used by \<open>str.strip\<close> and by \<open>\s\<close> of a \<open>str\<close> pattern),
  the decimal digits of \<open>\d\<close>, and \<open>str.lower\<close>.
\<close>

definition is_space :: "char \<Rightarrow> bool" where
  "is_space c = (c \<in> set [CHR 0x09, CHR 0x0A, CHR 0x0B, CHR 0x0C, CHR 0x0D,
     CHR 0x1C, CHR 0x1D, CHR 0x1E, CHR 0x1F, CHR 0x20, CHR 0x85, CHR 0xA0])"

definition is_digit :: "char \<Rightarrow> bool" where
  "is_digit c = (c \<in> set ''0123456789'')"

definition lower_char :: "char \<Rightarrow> char" where
  "lower_char c = (let n = (of_char c :: nat) in
     if (65 \<le> n \<and> n \<le> 90) \<or> (192 \<le> n \<and> n \<le> 222 \<and> n \<noteq> 215)
     then char_of (n + 32) else c)"

definition lower :: "string \<Rightarrow> string" where
  "lower s = map lower_char s"

definition strip :: "string \<Rightarrow> string" where
  "strip s = rev (dropWhile is_space (rev (dropWhile is_space s)))"

text \<open>\<open>s[i:j]\<close> for \<open>0 \<le> i\<close> and \<open>0 \<le> j\<close>; out-of-range bounds clip, as in Python.\<close>

definition slice :: "string \<Rightarrow> nat \<Rightarrow> nat \<Rightarrow> string" where
  "slice s i j = take (j - i) (drop i s)"

fun startswith :: "string \<Rightarrow> string \<Rightarrow> bool" where
  "startswith s [] = True"
| "startswith [] (p # ps) = False"
| "startswith (c # cs) (p # ps) = (c = p \<and> startswith cs ps)"

definition endswith :: "string \<Rightarrow> string \<Rightarrow> bool" where
  "endswith s p = startswith (rev s) (rev p)"

text \<open>\<open>sub in s\<close> on strings.\<close>

fun contains :: "string \<Rightarrow> string \<Rightarrow> bool" where
  "contains [] sub = (sub = [])"
| "contains (c # cs) sub = (startswith (c # cs) sub \<or> contains cs sub)"

text \<open>\<open>s.replace(old, new)\<close> for a non-empty \<open>old\<close>: left to right, without overlap.\<close>

function str_replace :: "string \<Rightarrow> string \<Rightarrow> string \<Rightarrow> string" where
  "str_replace old new s =
     (if s = [] \<or> old = [] then s
      else if startswith s old then new @ str_replace old new (drop (length old) s)
      else hd s # str_replace old new (tl s))"
  by pat_completeness auto
termination
  by (relation "measure (\<lambda>(old, new, s). length s)") (auto simp: neq_Nil_conv)

fun join :: "string \<Rightarrow> string list \<Rightarrow> string" where
  "join sep [] = []"
| "join sep [x] = x"
| "join sep (x # y # ys) = x @ sep @ join sep (y # ys)"

section \<open>Regular expressions\<close>

text \<open>
  The fragment of Python's \<open>re\<close> syntax the two modules use. Capture groups do not
  change where a pattern matches, so a group is its body; \<open>Bol\<close> is \<open>^\<close> under
  \<open>re.MULTILINE\<close>, every use of \<open>^\<close> in the source.
\<close>

datatype atom =
    Lit char
  | Space
  | Digit
  | Range char char
  | NotIn "char list"

datatype regex =
    Eps
  | Atom atom
  | Bol
  | Seq regex regex
  | Alt regex regex
  | Star regex

text \<open>
  \<open>ic\<close> is \<open>re.IGNORECASE\<close>. The only classes matched under that flag are \<open>\s\<close>,
  \<open>[^\n]\<close> and \<open>[^\n:]\<close>, which hold no cased character.
\<close>

fun atom_matches :: "bool \<Rightarrow> atom \<Rightarrow> char \<Rightarrow> bool" where
  "atom_matches ic (Lit x) c = (if ic then lower_char c = lower_char x else c = x)"
| "atom_matches ic Space c = is_space c"
| "atom_matches ic Digit c = is_digit c"
| "atom_matches ic (Range lo hi) c =
     ((of_char lo :: nat) \<le> of_char c \<and> (of_char c :: nat) \<le> of_char hi)"
| "atom_matches ic (NotIn xs) c = (c \<notin> set xs)"

text \<open>
  \<open>ends ic r s p\<close>: the positions at which a match of \<open>r\<close> starting at position \<open>p\<close>
  of \<open>s\<close> can end, in the order the backtracking matcher tries them: the left
  alternative before the right one, and for the greedy \<open>*\<close> one more repetition
  before stopping. The match the engine reports is the first of the list.
\<close>

function ends :: "bool \<Rightarrow> regex \<Rightarrow> string \<Rightarrow> nat \<Rightarrow> nat list" where
  "ends ic Eps s p = [p]"
| "ends ic (Atom a) s p =
     (if p < length s \<and> atom_matches ic a (s ! p) then [Suc p] else [])"
| "ends ic Bol s p =
     (if p = 0 \<or> (p \<le> length s \<and> s ! (p - 1) = CHR 0x0A) then [p] else [])"
| "ends ic (Seq r1 r2) s p = concat (map (\<lambda>e. ends ic r2 s e) (ends ic r1 s p))"
| "ends ic (Alt r1 r2) s p = ends ic r1 s p @ ends ic r2 s p"
| "ends ic (Star r) s p =
     concat (map (\<lambda>e. if p < e \<and> e \<le> length s then ends ic (Star r) s e else [])
                 (ends ic r s p)) @ [p]"
  by pat_completeness auto
termination
  by (relation "measures [\<lambda>(ic, r, s, p). size r, \<lambda>(ic, r, s, p). length s - p]") auto

definition Plus :: "regex \<Rightarrow> regex" where
  "Plus r = Seq r (Star r)"

fun seqs :: "regex list \<Rightarrow> regex" where
  "seqs [] = Eps"
| "seqs [r] = r"
| "seqs (r # rs) = Seq r (seqs rs)"

fun alts :: "regex list \<Rightarrow> regex" where
  "alts [] = Eps"
| "alts [r] = r"
| "alts (r # rs) = Alt r (alts rs)"

definition lit :: "string \<Rightarrow> regex" where
  "lit w = seqs (map (\<lambda>c. Atom (Lit c)) w)"

text \<open>
  \<open>re.finditer\<close>: the matches as (start, end), scanning from position \<open>p\<close>. The search
  resumes where the last match ended. No pattern of the two modules matches the empty
  string; for one that did, the scan moves on by one character.
\<close>

function finditer_from :: "bool \<Rightarrow> regex \<Rightarrow> string \<Rightarrow> nat \<Rightarrow> (nat \<times> nat) list" where
  "finditer_from ic r s p =
     (if length s < p then []
      else case ends ic r s p of
             [] \<Rightarrow> finditer_from ic r s (Suc p)
           | e # _ \<Rightarrow> (p, e) # finditer_from ic r s (if p < e then e else Suc p))"
  by pat_completeness auto
termination
  by (relation "measure (\<lambda>(ic, r, s, p). Suc (length s) - p)") auto

definition finditer :: "bool \<Rightarrow> regex \<Rightarrow> string \<Rightarrow> (nat \<times> nat) list" where
  "finditer ic r s = finditer_from ic r s 0"

text \<open>A pattern that holds a character to match on every path matches no empty string.\<close>

fun never_empty :: "regex \<Rightarrow> bool" where
  "never_empty Eps = False"
| "never_empty (Atom a) = True"
| "never_empty Bol = False"
| "never_empty (Seq r1 r2) = (never_empty r1 \<or> never_empty r2)"
| "never_empty (Alt r1 r2) = (never_empty r1 \<and> never_empty r2)"
| "never_empty (Star r) = False"

text \<open>\<open>re.sub(r, repl, s)\<close> for a replacement without escapes or group references.\<close>

fun sub_pieces :: "string \<Rightarrow> string \<Rightarrow> nat \<Rightarrow> (nat \<times> nat) list \<Rightarrow> string" where
  "sub_pieces repl s p [] = slice s p (length s)"
| "sub_pieces repl s p ((st, en) # ms) = slice s p st @ repl @ sub_pieces repl s en ms"

definition re_sub :: "regex \<Rightarrow> string \<Rightarrow> string \<Rightarrow> string" where
  "re_sub r repl s = sub_pieces repl s 0 (finditer False r s)"

text \<open>\<open>re.split(r, s)\<close> for a pattern without capture groups.\<close>

fun split_pieces :: "string \<Rightarrow> nat \<Rightarrow> (nat \<times> nat) list \<Rightarrow> string list" where
  "split_pieces s p [] = [slice s p (length s)]"
| "split_pieces s p ((st, en) # ms) = slice s p st # split_pieces s en ms"

definition re_split :: "regex \<Rightarrow> string \<Rightarrow> string list" where
  "re_split r s = split_pieces s 0 (finditer False r s)"

section \<open>processing/detect\_clauses.py\<close>

text \<open>The pattern \<open>\n\s*\n\<close>, used by the cleaner and by the paragraph split.\<close>

definition blank_lines :: regex where
  "blank_lines = seqs [Atom (Lit CHR 0x0A), Star (Atom Space), Atom (Lit CHR 0x0A)]"

definition clean_text_for_clause_detection :: "string \<Rightarrow> string" where
  "clean_text_for_clause_detection text =
     (let text = re_sub blank_lines [CHR 0x0A, CHR 0x0A] text;
          text = re_sub (Plus (Atom (Lit CHR '' ''))) '' '' text;
          text = str_replace [CHR 0x0D] [CHR 0x0A]
                   (str_replace [CHR 0x0D, CHR 0x0A] [CHR 0x0A] text)
      in strip text)"

text \<open>
  The loop over \<open>enumerate(matches)\<close> that \<open>detect_numbered_clauses\<close> and
  \<open>detect_header_based_clauses\<close> both run: a clause goes from one match start to the
  next match start (the end of the text for the last), stripped, and is kept unless empty.
\<close>

fun clauses_of_matches :: "string \<Rightarrow> (nat \<times> nat) list \<Rightarrow> string list" where
  "clauses_of_matches text [] = []"
| "clauses_of_matches text (m # ms) =
     (let start = fst m;
          end = (case ms of [] \<Rightarrow> length text | m' # _ \<Rightarrow> fst m');
          clause_text = strip (slice text start end)
      in (if clause_text \<noteq> [] then [clause_text] else []) @ clauses_of_matches text ms)"

definition numbered_patterns :: "regex list" where
  "numbered_patterns =
    [seqs [Bol, Star (Atom Space), Plus (Atom Digit), Atom (Lit CHR ''.''), Atom Space],
     seqs [Bol, Star (Atom Space), Plus (Atom Digit), Atom (Lit CHR ''.''),
           Plus (Atom Digit), Atom Space],
     seqs [Bol, Star (Atom Space), Atom (Lit CHR ''(''), Plus (Atom Digit),
           Atom (Lit CHR '')''), Atom Space],
     seqs [Bol, Star (Atom Space), Atom (Range CHR ''A'' CHR ''Z''), Atom (Lit CHR ''.''),
           Atom Space],
     seqs [Bol, Star (Atom Space), lit ''Article'', Plus (Atom Space), Plus (Atom Digit)],
     seqs [Bol, Star (Atom Space), lit ''Section'', Plus (Atom Space), Plus (Atom Digit)]]"

fun first_numbered :: "regex list \<Rightarrow> string \<Rightarrow> string list" where
  "first_numbered [] text = []"
| "first_numbered (pattern # patterns) text =
     (let matches = finditer False pattern text
      in if 2 \<le> length matches then clauses_of_matches text matches
         else first_numbered patterns text)"

definition detect_numbered_clauses :: "string \<Rightarrow> string list" where
  "detect_numbered_clauses text = first_numbered numbered_patterns text"

definition headers :: "(string \<times> string) list" where
  "headers =
    [(''TERMINATION'', ''Termination''),
     (''LIABILITY'', ''Liability''),
     (''CONFIDENTIALITY'', ''Confidentiality''),
     (''NON-DISCLOSURE'', ''Non-Disclosure''),
     (''PAYMENT'', ''Payment''),
     (''INTELLECTUAL PROPERTY'', ''Intellectual Property''),
     (''GOVERNING LAW'', ''Governing Law''),
     (''DISPUTE RESOLUTION'', ''Dispute Resolution''),
     (''FORCE MAJEURE'', ''Force Majeure''),
     (''INDEMNIFICATION'', ''Indemnification''),
     (''WARRANTIES'', ''Warranties''),
     (''LIMITATION OF LIABILITY'', ''Limitation of Liability''),
     (''ENTIRE AGREEMENT'', ''Entire Agreement''),
     (''AMENDMENT'', ''Amendment''),
     (''ASSIGNMENT'', ''Assignment''),
     (''SEVERABILITY'', ''Severability''),
     (''NOTICES'', ''Notices''),
     (''DEFINITIONS'', ''Definitions''),
     (''SCOPE OF WORK'', ''Scope of Work''),
     (''DELIVERABLES'', ''Deliverables''),
     (''TERM'', ''Term''),
     (''RENEWAL'', ''Renewal''),
     (''CANCELLATION'', ''Cancellation''),
     (''JURISDICTION'', ''Jurisdiction''),
     (''COMPLIANCE'', ''Compliance''),
     (''DATA PROTECTION'', ''Data Protection''),
     (''PRIVACY'', ''Privacy'')]"

text \<open>\<open>'|'.join(headers)\<close>: one alternative \<open>^\s*(UPPER|Title)\<close> for each header.\<close>

definition combined_pattern :: regex where
  "combined_pattern =
     alts (map (\<lambda>(u, t). seqs [Bol, Star (Atom Space), Alt (lit u) (lit t)]) headers)"

definition detect_header_based_clauses :: "string \<Rightarrow> string list" where
  "detect_header_based_clauses text =
     (let matches = finditer True combined_pattern text
      in if 2 \<le> length matches then clauses_of_matches text matches else [])"

definition detect_paragraph_based_clauses :: "string \<Rightarrow> string list" where
  "detect_paragraph_based_clauses text =
     filter (\<lambda>paragraph. 100 < length paragraph) (map strip (re_split blank_lines text))"

text \<open>The closing filter of \<open>detect_clauses\<close>: clauses longer than 50 once stripped.\<close>

definition filter_short :: "string list \<Rightarrow> string list" where
  "filter_short clauses = map strip (filter (\<lambda>clause. 50 < length (strip clause)) clauses)"

definition detect_clauses :: "string \<Rightarrow> string list" where
  "detect_clauses text =
     (if text = [] \<or> strip text = [] then []
      else
        let cleaned_text = clean_text_for_clause_detection text;
            clauses = [];
            numbered_clauses = detect_numbered_clauses cleaned_text;
            clauses = (if numbered_clauses \<noteq> [] \<and> 2 < length numbered_clauses
                       then numbered_clauses else clauses);
            clauses = (if clauses = []
                       then (let header_clauses = detect_header_based_clauses cleaned_text
                             in if header_clauses \<noteq> [] \<and> 1 < length header_clauses
                                then header_clauses else clauses)
                       else clauses);
            clauses = (if clauses = [] then detect_paragraph_based_clauses cleaned_text
                       else clauses);
            filtered_clauses = filter_short clauses
        in if filtered_clauses \<noteq> [] then filtered_clauses else [cleaned_text])"


section \<open>Python values\<close>

text \<open>
  The values \<open>json.loads\<close> can return, which are also the values of the analysis
  dictionaries (\<open>Dict[str, Any]\<close>). A float is named by the rational value of its literal;
  the modules store and compare floats, but never compute with them. A dictionary is an
  association list in insertion order.
\<close>

datatype pyfloat = Finite rat | NaN | PosInf | NegInf

datatype pyval =
    PNone
  | PBool bool
  | PInt int
  | PFloat pyfloat
  | PStr string
  | PList "pyval list"
  | PDict "(string \<times> pyval) list"

type_synonym pydict = "(string \<times> pyval) list"

text \<open>
  The exceptions of the two modules, each a subclass of \<open>Exception\<close>;
  \<open>OtherException\<close> names any other such class.
\<close>

datatype exn =
    JSONDecodeError
  | TypeError
  | AttributeError
  | ValueError
  | OtherException string

text \<open>Truth value testing, as \<open>if\<close>, \<open>and\<close> and \<open>not\<close> apply it.\<close>

fun truthy :: "pyval \<Rightarrow> bool" where
  "truthy PNone = False"
| "truthy (PBool b) = b"
| "truthy (PInt i) = (i \<noteq> 0)"
| "truthy (PFloat f) = (f \<noteq> Finite 0)"
| "truthy (PStr s) = (s \<noteq> [])"
| "truthy (PList xs) = (xs \<noteq> [])"
| "truthy (PDict d) = (d \<noteq> [])"

text \<open>\<open>d.get(k, default)\<close>, \<open>k in d\<close> and \<open>d[k] = v\<close> on a dictionary.\<close>

definition dict_get :: "pydict \<Rightarrow> string \<Rightarrow> pyval \<Rightarrow> pyval" where
  "dict_get d k dflt = (case map_of d k of Some v \<Rightarrow> v | None \<Rightarrow> dflt)"

definition dict_has :: "pydict \<Rightarrow> string \<Rightarrow> bool" where
  "dict_has d k = (case map_of d k of Some v \<Rightarrow> True | None \<Rightarrow> False)"

fun dict_set :: "pydict \<Rightarrow> string \<Rightarrow> pyval \<Rightarrow> pydict" where
  "dict_set [] k v = [(k, v)]"
| "dict_set ((k', v') # d) k v =
     (if k' = k then (k, v) # d else (k', v') # dict_set d k v)"

text \<open>
  \<open>field not in analysis\<close> and \<open>analysis[field] = v\<close> for whatever \<open>json.loads\<close>
  returned: membership is by key on a dictionary, by element on a list and by substring
  on a string, and raises TypeError on the other types; only a dictionary takes a string
  key in an item assignment.
\<close>

fun not_in :: "string \<Rightarrow> pyval \<Rightarrow> exn + bool" where
  "not_in k (PDict d) = Inr (\<not> dict_has d k)"
| "not_in k (PList xs) = Inr (PStr k \<notin> set xs)"
| "not_in k (PStr s) = Inr (\<not> contains s k)"
| "not_in k v = Inl TypeError"

fun set_item :: "pyval \<Rightarrow> string \<Rightarrow> pyval \<Rightarrow> exn + pyval" where
  "set_item (PDict d) k v = Inr (PDict (dict_set d k v))"
| "set_item a k v = Inl TypeError"

section \<open>Searching for a group\<close>

text \<open>
  \<open>re.search(pattern, s, re.IGNORECASE).group(1)\<close> for a pattern made of a prefix and
  then one group that ends the pattern: the leftmost start, and there the first way, in
  backtracking order, to match the prefix and then the group.
\<close>

fun first_group :: "regex \<Rightarrow> string \<Rightarrow> nat list \<Rightarrow> string option" where
  "first_group grp s [] = None"
| "first_group grp s (e # es) =
     (case ends True grp s e of
        [] \<Rightarrow> first_group grp s es
      | e' # _ \<Rightarrow> Some (slice s e e'))"

function search_group_from :: "regex \<Rightarrow> regex \<Rightarrow> string \<Rightarrow> nat \<Rightarrow> string option" where
  "search_group_from pre grp s p =
     (if length s < p then None
      else case first_group grp s (ends True pre s p) of
             Some g \<Rightarrow> Some g
           | None \<Rightarrow> search_group_from pre grp s (Suc p))"
  by pat_completeness auto
termination
  by (relation "measure (\<lambda>(pre, grp, s, p). Suc (length s) - p)") auto

definition search_group :: "regex \<Rightarrow> regex \<Rightarrow> string \<Rightarrow> string option" where
  "search_group pre grp s = search_group_from pre grp s 0"

section \<open>processing/summarize\_and\_flag.py\<close>

definition get_default_value :: "string \<Rightarrow> pyval" where
  "get_default_value field =
     dict_get [(''clause_type'', PStr ''Unknown''),
               (''summary'', PStr ''No summary available''),
               (''risk_flag'', PBool False),
               (''risk_reason'', PStr ''''),
               (''confidence'', PFloat (Finite (1 / 2)))] field (PStr '''')"

text \<open>
  \<open>(?:clause type|type):\s*([^\n]+)\<close> and
  \<open>(?:summary|explanation):\s*([^\n]+(?:\n[^\n:]+)*)\<close>, each as prefix and group.
\<close>

definition type_prefix :: regex where
  "type_prefix = seqs [Alt (lit ''clause type'') (lit ''type''), Atom (Lit CHR '':''),
                       Star (Atom Space)]"

definition type_group :: regex where
  "type_group = Plus (Atom (NotIn [CHR 0x0A]))"

definition summary_prefix :: regex where
  "summary_prefix = seqs [Alt (lit ''summary'') (lit ''explanation''), Atom (Lit CHR '':''),
                          Star (Atom Space)]"

definition summary_group :: regex where
  "summary_group =
     Seq (Plus (Atom (NotIn [CHR 0x0A])))
         (Star (Seq (Atom (Lit CHR 0x0A)) (Plus (Atom (NotIn [CHR 0x0A, CHR '':''])))))"

definition risk_keywords :: "string list" where
  "risk_keywords = [''risk'', ''danger'', ''concern'', ''warning'', ''caution'', ''problematic'']"

definition parse_non_json_response :: "string \<Rightarrow> pydict" where
  "parse_non_json_response response_text =
     (let analysis = [(''clause_type'', PStr ''Unknown''),
                      (''summary'', PStr ''Could not parse AI response properly''),
                      (''risk_flag'', PBool False),
                      (''risk_reason'', PStr ''''),
                      (''confidence'', PFloat (Finite (1 / 2)))];
          analysis = (case search_group type_prefix type_group response_text of
                        Some g \<Rightarrow> dict_set analysis ''clause_type'' (PStr (strip g))
                      | None \<Rightarrow> analysis);
          analysis = (case search_group summary_prefix summary_group response_text of
                        Some g \<Rightarrow> dict_set analysis ''summary'' (PStr (strip g))
                      | None \<Rightarrow> analysis);
          analysis = (if list_ex (contains (lower response_text)) risk_keywords
                      then dict_set (dict_set analysis ''risk_flag'' (PBool True))
                             ''risk_reason'' (PStr ''Potential risks mentioned in analysis'')
                      else analysis)
      in analysis)"

text \<open>Lines 172 to 180: the response stripped, without its code fence, stripped again.\<close>

definition strip_code_fence :: "string \<Rightarrow> string" where
  "strip_code_fence response_text =
     (let cleaned_response = strip response_text;
          cleaned_response = (if startswith cleaned_response ''```json''
                              then drop 7 cleaned_response else cleaned_response);
          cleaned_response = (if endswith cleaned_response ''```''
                              then take (length cleaned_response - 3) cleaned_response
                              else cleaned_response)
      in strip cleaned_response)"

definition required_fields :: "string list" where
  "required_fields = [''clause_type'', ''summary'', ''risk_flag'']"

text \<open>The loop over \<open>required_fields\<close>, on whatever the decoder returned.\<close>

fun validate_required :: "string list \<Rightarrow> pyval \<Rightarrow> exn + pyval" where
  "validate_required [] analysis = Inr analysis"
| "validate_required (field # fields) analysis =
     (case not_in field analysis of
        Inl e \<Rightarrow> Inl e
      | Inr True \<Rightarrow>
          (case set_item analysis field (get_default_value field) of
             Inl e \<Rightarrow> Inl e
           | Inr analysis' \<Rightarrow> validate_required fields analysis')
      | Inr False \<Rightarrow> validate_required fields analysis)"

text \<open>
  \<open>loads\<close> is \<open>json.loads\<close>, of the standard library: a parameter of the model. Only its
  JSONDecodeError is caught; \<open>analysis.get\<close> on a value that is not a dictionary raises
  AttributeError.
\<close>

definition parse_gemini_response :: "(string \<Rightarrow> exn + pyval) \<Rightarrow> string \<Rightarrow> exn + pydict" where
  "parse_gemini_response loads response_text =
     (case loads (strip_code_fence response_text) of
        Inl e \<Rightarrow>
          (if e = JSONDecodeError then Inr (parse_non_json_response response_text)
           else Inl e)
      | Inr analysis \<Rightarrow>
          (case validate_required required_fields analysis of
             Inl e \<Rightarrow> Inl e
           | Inr (PDict d) \<Rightarrow>
               (let d = (if truthy (dict_get d ''risk_flag'' (PBool False))
                            \<and> \<not> truthy (dict_get d ''risk_reason'' PNone)
                         then dict_set d ''risk_reason''
                                (PStr ''Potential risk detected but no specific reason provided'')
                         else d);
                    d = (if dict_has d ''confidence'' then d
                         else dict_set d ''confidence'' (PFloat (Finite (7 / 10))))
                in Inr d)
           | Inr other \<Rightarrow> Inl AttributeError))"

definition risk_patterns :: "(string \<times> string list \<times> string) list" where
  "risk_patterns =
    [(''auto_renewal'',
      [''auto-renew'', ''automatically renew'', ''automatic renewal'', ''evergreen''],
      ''Automatic renewal clause - may lock you into ongoing commitments''),
     (''exclusivity'',
      [''exclusive'', ''solely'', ''only work with'', ''exclusively''],
      ''Exclusivity clause - may limit your business opportunities''),
     (''unlimited_liability'',
      [''unlimited liability'', ''no limit to liability'', ''fully liable''],
      ''Unlimited liability - you could be responsible for significant damages''),
     (''indemnification'',
      [''indemnify'', ''hold harmless'', ''defend and hold''],
      ''Indemnification clause - you may be required to cover legal costs and damages''),
     (''broad_termination'',
      [''terminate at will'', ''terminate without cause'', ''immediate termination''],
      ''Broad termination rights - the other party can end the agreement easily''),
     (''ip_assignment'',
      [''assign all rights'', ''transfer ownership'', ''work for hire''],
      ''Intellectual property assignment - you may lose rights to your work''),
     (''penalty_clauses'',
      [''penalty'', ''liquidated damages'', ''substantial damages''],
      ''Penalty clause - you may face financial penalties for breach''),
     (''governing_law'',
      [''governed by laws of'', ''jurisdiction of'', ''courts of''],
      ''Jurisdiction clause - legal disputes may need to be resolved in unfavorable location''),
     (''modification_restrictions'',
      [''cannot be modified'', ''no modifications'', ''written consent required''],
      ''Modification restrictions - agreement may be difficult to change later''),
     (''confidentiality_overreach'',
      [''perpetual confidentiality'', ''permanent non-disclosure'',
       ''indefinite confidentiality''],
      ''Excessive confidentiality terms - may restrict your business activities indefinitely'')]"

definition detect_keyword_based_risks :: "string \<Rightarrow> string" where
  "detect_keyword_based_risks clause_text =
     (let clause_lower = lower clause_text;
          detected_risks =
            map (\<lambda>(risk_type, keywords, description). description)
                (filter (\<lambda>(risk_type, keywords, description).
                           list_ex (contains clause_lower) keywords) risk_patterns)
      in if detected_risks \<noteq> [] then join ''; '' detected_risks else [])"

text \<open>
  \<open>response\<close> is what lines 72 to 91 come to for the clause: an exception raised while
  the client is created, the prompt loaded and formatted or the service called, or the
  \<open>text\<close> attribute of the service's response (\<open>None\<close> when it has none).
\<close>

definition analyze_single_clause ::
    "(string \<Rightarrow> exn + pyval) \<Rightarrow> exn + string option \<Rightarrow> string \<Rightarrow> exn + pydict" where
  "analyze_single_clause loads response clause_text =
     (case response of
        Inl e \<Rightarrow> Inl e
      | Inr None \<Rightarrow> Inl ValueError
      | Inr (Some response_text) \<Rightarrow>
          (if response_text = [] then Inl ValueError
           else case parse_gemini_response loads response_text of
                  Inl e \<Rightarrow> Inl e
                | Inr analysis \<Rightarrow>
                    (let additional_risks = detect_keyword_based_risks clause_text
                     in if additional_risks \<noteq> []
                           \<and> \<not> truthy (dict_get analysis ''risk_flag'' (PBool False))
                        then Inr (dict_set (dict_set analysis ''risk_flag'' (PBool True))
                                    ''risk_reason'' (PStr additional_risks))
                        else Inr analysis)))"

record clause_data =
  original_text :: string
  clause_type :: pyval
  summary :: pyval
  risk_flag :: pyval
  risk_reason :: pyval
  confidence :: pyval

text \<open>The record of the \<open>except\<close> branch.\<close>

definition fallback_data :: "string \<Rightarrow> clause_data" where
  "fallback_data clause_text =
     \<lparr>original_text = clause_text,
      clause_type = PStr ''Unknown'',
      summary = PStr ''Analysis failed - manual review required'',
      risk_flag = PBool True,
      risk_reason = PStr ''Could not analyze with AI - requires manual review'',
      confidence = PFloat (Finite 0)\<rparr>"

text \<open>One turn of the loop: the \<open>try\<close> body, and the \<open>except Exception\<close> branch.\<close>

definition analyze_one ::
    "(string \<Rightarrow> exn + pyval) \<Rightarrow> exn + string option \<Rightarrow> string \<Rightarrow> clause_data" where
  "analyze_one loads response clause_text =
     (case analyze_single_clause loads response clause_text of
        Inr analysis \<Rightarrow>
          \<lparr>original_text = clause_text,
           clause_type = dict_get analysis ''clause_type'' (PStr ''Unknown''),
           summary = dict_get analysis ''summary'' (PStr ''No summary available''),
           risk_flag = dict_get analysis ''risk_flag'' (PBool False),
           risk_reason = dict_get analysis ''risk_reason'' (PStr ''''),
           confidence = dict_get analysis ''confidence'' (PFloat (Finite 0))\<rparr>
      | Inl e \<Rightarrow> fallback_data clause_text)"

text \<open>
  \<open>service i clause_text\<close> is the \<open>response\<close> above for the clause at index \<open>i\<close>: the
  service may answer the same text differently at different turns.
\<close>

fun analyze_from ::
    "(string \<Rightarrow> exn + pyval) \<Rightarrow> (nat \<Rightarrow> string \<Rightarrow> exn + string option) \<Rightarrow> nat
       \<Rightarrow> string list \<Rightarrow> clause_data list" where
  "analyze_from loads service i [] = []"
| "analyze_from loads service i (clause_text # clauses) =
     analyze_one loads (service i clause_text) clause_text
       # analyze_from loads service (Suc i) clauses"

definition analyze_clauses_with_gemini ::
    "(string \<Rightarrow> exn + pyval) \<Rightarrow> (nat \<Rightarrow> string \<Rightarrow> exn + string option)
       \<Rightarrow> string list \<Rightarrow> clause_data list" where
  "analyze_clauses_with_gemini loads service clauses = analyze_from loads service 0 clauses"

section \<open>Example inputs\<close>

definition three_short_sections :: string where
  "three_short_sections = ''1. a\<newline>2. b\<newline>3. c''"

definition three_long_sections :: string where
  "three_long_sections =
     ''1. The supplier delivers the goods to the buyer each month.\<newline>2. The buyer pays the supplier within thirty days of delivery.\<newline>3. Either party may end this agreement by written notice.''"

text \<open>The example of the specification: two numbered sections, a blank line between.\<close>

definition two_sections :: string where
  "two_sections =
     ''1. Term. This agreement lasts one year.\<newline>\<newline>2. Termination. Either party may terminate at will.''"

text \<open>Two numbered sections, each longer than 50 characters.\<close>

definition two_long_sections :: string where
  "two_long_sections =
     ''1. The supplier delivers the goods to the buyer each month.\<newline>2. The buyer pays the supplier within thirty days of delivery.''"

text \<open>Two blank lines with bare carriage returns as line endings.\<close>

definition bare_cr_lines :: string where
  "bare_cr_lines = [CHR ''a'', CHR 0x0D, CHR 0x0D, CHR 0x0D, CHR ''b'']"

text \<open>
  \<open>json.loads\<close> belongs to the standard library, so the parser takes the decoder as a
  parameter, and what is proved of the parser holds for every decoder. An example fixes
  the decoder on the one document it uses: \<open>decodes_to document v\<close> decodes
  \<open>document\<close> to \<open>v\<close> and rejects any other text.
\<close>

definition decodes_to :: "string \<Rightarrow> pyval \<Rightarrow> string \<Rightarrow> exn + pyval" where
  "decodes_to document v s = (if s = document then Inr v else Inl JSONDecodeError)"

text \<open>The example of the specification: an object without reason or confidence, fenced.\<close>

definition payment_object :: string where
  \<open>payment_object = ''{"clause_type":"Payment","summary":"...","risk_flag":false}''\<close>

definition payment_dict :: pydict where
  "payment_dict = [(''clause_type'', PStr ''Payment''), (''summary'', PStr ''...''),
                   (''risk_flag'', PBool False)]"

definition fenced_payment :: string where
  "fenced_payment = ''```json\<newline>'' @ payment_object @ ''\<newline>```''"

text \<open>A service that raises at the first clause and answers \<open>{}\<close> afterwards, and one
  that answers \<open>{}\<close> every time.\<close>

definition first_call_fails :: "nat \<Rightarrow> string \<Rightarrow> exn + string option" where
  "first_call_fails i clause_text =
     (if i = 0 then Inl (OtherException ''ServerError'') else Inr (Some ''{}''))"

definition every_call_answers :: "nat \<Rightarrow> string \<Rightarrow> exn + string option" where
  "every_call_answers i clause_text = Inr (Some ''{}'')"

section \<open>Strings: facts\<close>

declare str_replace.simps [simp del]
declare finditer_from.simps [simp del]

lemma dropWhile_all_iff: "(\<forall>x\<in>set (dropWhile P s). P x) \<longleftrightarrow> (\<forall>x\<in>set s. P x)"
  by (induction s) auto

lemma strip_Nil_iff: "strip s = [] \<longleftrightarrow> (\<forall>c\<in>set s. is_space c)"
  by (simp add: strip_def dropWhile_eq_Nil_conv dropWhile_all_iff)

lemma strip_Nil [simp]: "strip [] = []"
  by (simp add: strip_def)

lemma dropWhile_rev_suffix:
  assumes "xs = [] \<or> \<not> P (hd xs)"
  shows "dropWhile P (rev (dropWhile P (rev xs))) = rev (dropWhile P (rev xs))"
proof (cases "dropWhile P (rev xs) = []")
  case True
  show ?thesis unfolding True by simp
next
  case False
  obtain ys where ys: "rev xs = takeWhile P (rev xs) @ ys" and d: "dropWhile P (rev xs) = ys"
    by (metis takeWhile_dropWhile_id)
  from False d have "ys \<noteq> []" by simp
  have "xs = rev ys @ rev (takeWhile P (rev xs))"
    using ys by (metis rev_append rev_rev_ident)
  with \<open>ys \<noteq> []\<close> have "hd (rev ys) = hd xs" "xs \<noteq> []"
    by (metis hd_append2 rev_is_Nil_conv, metis append_is_Nil_conv rev_is_Nil_conv)
  with assms have "\<not> P (hd (rev ys))" by simp
  with \<open>ys \<noteq> []\<close> have "dropWhile P (rev ys) = rev ys"
    by (cases "rev ys") auto
  with d show ?thesis by simp
qed

lemma strip_idem: "strip (strip s) = strip s"
proof -
  let ?a = "dropWhile is_space s"
  have a: "?a = [] \<or> \<not> is_space (hd ?a)"
    using hd_dropWhile by blast
  have "dropWhile is_space (strip s) = strip s"
    unfolding strip_def using dropWhile_rev_suffix [of "dropWhile is_space s" is_space, OF a] .
  then show ?thesis
    by (simp add: strip_def)
qed

lemma set_slice: "set (slice s i j) \<subseteq> set s"
  unfolding slice_def by (meson set_drop_subset set_take_subset subset_trans)

lemma set_sub_pieces: "set (sub_pieces repl s p ms) \<subseteq> set s \<union> set repl"
  using set_slice by (induction repl s p ms rule: sub_pieces.induct) fastforce+

lemma set_str_replace: "set (str_replace old new s) \<subseteq> set s \<union> set new"
proof (induction old new s rule: str_replace.induct)
  case (1 old new s)
  show ?case
  proof (cases "s = [] \<or> old = []")
    case True
    then show ?thesis by (subst str_replace.simps) auto
  next
    case False
    show ?thesis
    proof (cases "startswith s old")
      case True
      have "set (drop (length old) s) \<subseteq> set s" by (rule set_drop_subset)
      with 1(1) [OF False True] have "set (str_replace old new (drop (length old) s)) \<subseteq> set s \<union> set new"
        by blast
      with False True show ?thesis
        by (subst str_replace.simps) auto
    next
      case n: False
      from False have "set (tl s) \<subseteq> set s" "hd s \<in> set s"
        by (auto simp: list.set_sel)
      with 1(2) [OF False n] have "set (str_replace old new (tl s)) \<subseteq> set s \<union> set new" "hd s \<in> set s"
        by blast+
      with False n show ?thesis
        by (subst str_replace.simps) auto
    qed
  qed
qed

lemma all_sub_pieces:
  assumes "\<forall>c\<in>set s. P c" and "\<forall>c\<in>set repl. P c"
  shows "\<forall>c\<in>set (sub_pieces repl s p ms). P c"
proof
  fix c assume "c \<in> set (sub_pieces repl s p ms)"
  then have "c \<in> set s \<union> set repl" using set_sub_pieces by blast
  with assms show "P c" by blast
qed

lemma all_str_replace:
  assumes "\<forall>c\<in>set s. P c" and "\<forall>c\<in>set new. P c"
  shows "\<forall>c\<in>set (str_replace old new s). P c"
proof
  fix c assume "c \<in> set (str_replace old new s)"
  then have "c \<in> set s \<union> set new" using set_str_replace by blast
  with assms show "P c" by blast
qed

section \<open>Matches are never empty\<close>

text \<open>
  Every match of the patterns of \<open>detect_clauses.py\<close> takes at least one character,
  so \<open>finditer_from\<close> always resumes where the last match ended.
\<close>

lemma ends_ge: "e \<in> set (ends ic r s p) \<Longrightarrow> p \<le> e"
proof (induction ic r s p arbitrary: e rule: ends.induct)
  case (4 ic r1 r2 s p)
  from "4.prems" obtain m where m: "m \<in> set (ends ic r1 s p)" "e \<in> set (ends ic r2 s m)"
    by (auto simp del: ends.simps(6))
  from "4.IH"(1) [OF m(1)] "4.IH"(2) [OF m(1) m(2)] show ?case by simp
next
  case (6 ic r s p)
  show ?case
  proof (cases "e = p")
    case True
    then show ?thesis by simp
  next
    case False
    from "6.prems" have "e \<in> set (concat (map (\<lambda>e. if p < e \<and> e \<le> length s
        then ends ic (Star r) s e else []) (ends ic r s p)) @ [p])"
      by (subst (asm) ends.simps(6))
    with False obtain m where m: "m \<in> set (ends ic r s p)" "p < m \<and> m \<le> length s"
      "e \<in> set (ends ic (Star r) s m)"
      by (auto simp del: ends.simps split: if_splits)
    from "6.IH"(2) [OF m(1) m(2) m(3)] m(2) show ?thesis by simp
  qed
qed (auto simp del: ends.simps(6) split: if_splits)

lemma ends_gt: "never_empty r \<Longrightarrow> e \<in> set (ends ic r s p) \<Longrightarrow> p < e"
proof (induction r arbitrary: e p)
  case (Seq r1 r2)
  from Seq.prems(2) obtain m where m: "m \<in> set (ends ic r1 s p)" "e \<in> set (ends ic r2 s m)"
    by (auto simp del: ends.simps(6))
  from Seq.prems(1) have "never_empty r1 \<or> never_empty r2" by simp
  then show ?case
  proof
    assume "never_empty r1"
    from Seq.IH(1) [OF this m(1)] ends_ge [OF m(2)] show ?thesis by simp
  next
    assume "never_empty r2"
    from Seq.IH(2) [OF this m(2)] ends_ge [OF m(1)] show ?thesis by simp
  qed
qed (auto simp del: ends.simps(6) split: if_splits)

lemma finditer_from_nonempty:
  "never_empty r \<Longrightarrow> (st, en) \<in> set (finditer_from ic r s p) \<Longrightarrow> st < en"
proof (induction ic r s p rule: finditer_from.induct)
  case (1 ic r s p)
  show ?case
  proof (cases "length s < p")
    case True
    with "1.prems" show ?thesis by (subst (asm) finditer_from.simps) simp
  next
    case False
    show ?thesis
    proof (cases "ends ic r s p")
      case Nil
      with False "1.prems" have "(st, en) \<in> set (finditer_from ic r s (Suc p))"
        by (subst (asm) finditer_from.simps) simp
      from "1.IH"(1) [OF False Nil "1.prems"(1) this] show ?thesis .
    next
      case (Cons e es)
      then have pe: "p < e" using ends_gt [OF "1.prems"(1), of e ic s p] by simp
      from False Cons "1.prems"(2)
      have "(st, en) = (p, e) \<or> (st, en) \<in> set (finditer_from ic r s (if p < e then e else Suc p))"
        by (subst (asm) finditer_from.simps) simp
      then show ?thesis
      proof
        assume "(st, en) = (p, e)"
        with pe show ?thesis by simp
      next
        assume "(st, en) \<in> set (finditer_from ic r s (if p < e then e else Suc p))"
        from "1.IH"(2) [OF False Cons "1.prems"(1) this] show ?thesis .
      qed
    qed
  qed
qed

lemma patterns_never_empty:
  "never_empty blank_lines"
  "never_empty (Plus (Atom (Lit CHR '' '')))"
  "list_all never_empty numbered_patterns"
  "never_empty combined_pattern"
  by (simp_all add: blank_lines_def Plus_def numbered_patterns_def combined_pattern_def
        headers_def lit_def)

section \<open>The clause segmenter\<close>

lemma clean_blank:
  assumes "\<forall>c\<in>set text. is_space c"
  shows "clean_text_for_clause_detection text = []"
proof -
  have nl: "\<forall>c\<in>set [CHR 0x0A, CHR 0x0A]. is_space c" by (simp add: is_space_def)
  have nl1: "\<forall>c\<in>set [CHR 0x0A]. is_space c" by (simp add: is_space_def)
  have sp: "\<forall>c\<in>set '' ''. is_space c" by (simp add: is_space_def)
  let ?t1 = "re_sub blank_lines [CHR 0x0A, CHR 0x0A] text"
  let ?t2 = "re_sub (Plus (Atom (Lit CHR '' ''))) '' '' ?t1"
  let ?t3 = "str_replace [CHR 0x0D, CHR 0x0A] [CHR 0x0A] ?t2"
  let ?t4 = "str_replace [CHR 0x0D] [CHR 0x0A] ?t3"
  have 1: "\<forall>c\<in>set ?t1. is_space c"
    unfolding re_sub_def by (rule all_sub_pieces [OF assms nl])
  have 2: "\<forall>c\<in>set ?t2. is_space c"
    unfolding re_sub_def by (rule all_sub_pieces [OF 1 [unfolded re_sub_def] sp])
  have 3: "\<forall>c\<in>set ?t3. is_space c"
    by (rule all_str_replace [OF 2 nl1])
  have 4: "\<forall>c\<in>set ?t4. is_space c"
    by (rule all_str_replace [OF 3 nl1])
  then have "strip ?t4 = []" by (simp only: strip_Nil_iff)
  then show ?thesis by (simp only: clean_text_for_clause_detection_def Let_def)
qed

lemma numbered_Nil: "detect_numbered_clauses [] = []"
  by code_simp

lemma detect_clauses_shape:
  assumes "strip text \<noteq> []"
  shows "\<exists>cs. detect_clauses text =
          (if filter_short cs \<noteq> [] then filter_short cs
           else [clean_text_for_clause_detection text])"
proof -
  from assms have "text \<noteq> []" by auto
  with assms show ?thesis
    unfolding detect_clauses_def Let_def by (simp only: if_False simp_thms) blast
qed

lemma filter_short_long: "c \<in> set (filter_short cs) \<Longrightarrow> 50 < length (strip c)"
  by (auto simp: filter_short_def strip_idem)

text \<open>
  C10. An input that is empty or holds only whitespace gives the empty list: the guard
  at the head of \<open>detect_clauses\<close> returns before the cleaner, the three strategies
  and the whole-text fallback.
\<close>

theorem detect_clauses_blank:
  "(\<forall>c\<in>set text. is_space c) \<Longrightarrow> detect_clauses text = []"
  by (simp add: detect_clauses_def strip_Nil_iff)

theorem detect_clauses_blank_witness:
  "detect_clauses [CHR '' '', CHR 0x0A, CHR 0x09] = []"
proof -
  have h: "\<forall>c\<in>set [CHR '' '', CHR 0x0A, CHR 0x09]. is_space c"
    by (simp add: is_space_def)
  from detect_clauses_blank [OF h] show ?thesis .
qed

text \<open>
  A non-empty input of whitespace alone gives no clause at all: the guard that opens
  \<open>detect_clauses\<close> returns the empty list for it.
\<close>

theorem detect_clauses_space_counterexample:
  "'' '' \<noteq> [] \<and> detect_clauses '' '' = []"
  by (simp add: detect_clauses_def strip_def is_space_def)

text \<open>
  C1, as the code has it. An input with at least one character that is not whitespace
  gives at least one clause. \<open>detect_clauses\<close> is a total function: no branch of the
  source raises.
\<close>

theorem detect_clauses_nonempty:
  "strip text \<noteq> [] \<Longrightarrow> detect_clauses text \<noteq> []"
  using detect_clauses_shape [of "text"] by (auto split: if_splits)

theorem detect_clauses_nonempty_witness:
  "strip ''a'' \<noteq> [] \<and> detect_clauses ''a'' \<noteq> []"
proof -
  have h: "strip ''a'' \<noteq> []" by (simp add: strip_def is_space_def)
  from h detect_clauses_nonempty [OF h] show ?thesis by (rule conjI)
qed

text \<open>
  C7. Every clause of the result is longer than 50 characters once stripped, or the
  result is the cleaned text alone.
\<close>

theorem detect_clauses_long_or_whole:
  "(\<forall>c\<in>set (detect_clauses text). 50 < length (strip c))
   \<or> detect_clauses text = [clean_text_for_clause_detection text]"
proof (cases "strip text = []")
  case True
  then have "detect_clauses text = []" by (simp add: detect_clauses_def)
  then show ?thesis by simp
next
  case False
  then obtain cs where cs: "detect_clauses text =
          (if filter_short cs \<noteq> [] then filter_short cs
           else [clean_text_for_clause_detection text])"
    using detect_clauses_shape by blast
  show ?thesis
  proof (cases "filter_short cs = []")
    case True
    with cs show ?thesis by simp
  next
    case False
    with cs have "detect_clauses text = filter_short cs" by simp
    then show ?thesis using filter_short_long by auto
  qed
qed

theorem detect_clauses_long_or_whole_witness:
  "detect_clauses ''a'' = [clean_text_for_clause_detection ''a'']"
proof -
  have "detect_clauses ''a'' = [''a'']" by code_simp
  then have "\<not> (\<forall>c\<in>set (detect_clauses ''a''). 50 < length (strip c))"
    by (simp add: strip_def is_space_def)
  with detect_clauses_long_or_whole [of "''a''"] show ?thesis by blast
qed

text \<open>
  Three numbered sections are found in \<open>three_short_sections\<close>, yet the result is not
  their split: the closing filter drops every clause of 50 characters or fewer, and the
  cleaned text is returned whole.
\<close>

theorem numbered_split_counterexample:
  "length (finditer False (hd numbered_patterns)
             (clean_text_for_clause_detection three_short_sections)) = 3
   \<and> detect_numbered_clauses (clean_text_for_clause_detection three_short_sections)
       = [''1. a'', ''2. b'', ''3. c'']
   \<and> detect_clauses three_short_sections = [three_short_sections]"
  unfolding three_short_sections_def by code_simp

text \<open>
  C3, as the code has it. When the numbered strategy yields more than two clauses, the
  result is those clauses after the closing filter, or the cleaned text alone when none
  passes it; the header and paragraph strategies have no part in it.
\<close>

theorem numbered_preferred:
  assumes "2 < length (detect_numbered_clauses (clean_text_for_clause_detection text))"
  shows "detect_clauses text =
     (let numbered = filter_short (detect_numbered_clauses (clean_text_for_clause_detection text))
      in if numbered \<noteq> [] then numbered else [clean_text_for_clause_detection text])"
proof -
  have ne: "strip text \<noteq> []"
  proof
    assume "strip text = []"
    then have "clean_text_for_clause_detection text = []"
      by (simp add: clean_blank strip_Nil_iff)
    with assms show False by (simp add: numbered_Nil)
  qed
  then have "text \<noteq> []" by auto
  moreover from assms
  have "detect_numbered_clauses (clean_text_for_clause_detection text) \<noteq> []" by auto
  ultimately show ?thesis
    using assms ne unfolding detect_clauses_def Let_def by (simp only: if_False if_True simp_thms)
qed

theorem numbered_preferred_witness:
  "2 < length (detect_numbered_clauses (clean_text_for_clause_detection three_long_sections))
   \<and> detect_clauses three_long_sections =
       [''1. The supplier delivers the goods to the buyer each month.'',
        ''2. The buyer pays the supplier within thirty days of delivery.'',
        ''3. Either party may end this agreement by written notice.'']"
proof -
  have n: "detect_numbered_clauses (clean_text_for_clause_detection three_long_sections) =
       [''1. The supplier delivers the goods to the buyer each month.'',
        ''2. The buyer pays the supplier within thirty days of delivery.'',
        ''3. Either party may end this agreement by written notice.'']"
    unfolding three_long_sections_def by code_simp
  have f: "filter_short
       [''1. The supplier delivers the goods to the buyer each month.'',
        ''2. The buyer pays the supplier within thirty days of delivery.'',
        ''3. Either party may end this agreement by written notice.''] =
       [''1. The supplier delivers the goods to the buyer each month.'',
        ''2. The buyer pays the supplier within thirty days of delivery.'',
        ''3. Either party may end this agreement by written notice.'']"
    by code_simp
  have h: "2 < length (detect_numbered_clauses
                        (clean_text_for_clause_detection three_long_sections))"
    unfolding n by simp
  from numbered_preferred [OF h] have
    "detect_clauses three_long_sections =
       [''1. The supplier delivers the goods to the buyer each month.'',
        ''2. The buyer pays the supplier within thirty days of delivery.'',
        ''3. Either party may end this agreement by written notice.'']"
    unfolding n f Let_def by simp
  with h show ?thesis by (rule conjI)
qed

text \<open>The cleaner leaves no carriage return.\<close>

lemma str_replace_no_cr:
  "CHR 0x0D \<notin> set (str_replace [CHR 0x0D] [CHR 0x0A] s)"
proof (induction s)
  case Nil
  then show ?case by (subst str_replace.simps) simp
next
  case (Cons c s)
  then show ?case by (subst str_replace.simps) simp
qed

lemma set_strip: "set (strip s) \<subseteq> set s"
proof
  fix x assume "x \<in> set (strip s)"
  then have "x \<in> set (dropWhile is_space (rev (dropWhile is_space s)))"
    by (simp add: strip_def)
  then have "x \<in> set (rev (dropWhile is_space s))" by (rule set_dropWhileD)
  then have "x \<in> set (dropWhile is_space s)" by simp
  then show "x \<in> set s" by (rule set_dropWhileD)
qed

lemma clean_no_carriage_return:
  "CHR 0x0D \<notin> set (clean_text_for_clause_detection text)"
  unfolding clean_text_for_clause_detection_def Let_def
  using set_strip str_replace_no_cr by blast

text \<open>
  C9. On \<open>bare_cr_lines\<close> the cleaner returns three newlines in a row: blank lines are
  collapsed before the carriage returns become newlines.
\<close>

theorem clean_bare_cr_lines:
  "clean_text_for_clause_detection bare_cr_lines = ''a\<newline>\<newline>\<newline>b''"
  unfolding bare_cr_lines_def by code_simp

section \<open>Dictionaries: facts\<close>

lemma map_of_dict_set: "map_of (dict_set d k v) = (map_of d)(k \<mapsto> v)"
  by (induction d) auto

lemma dict_get_set: "dict_get (dict_set d k v) k' x = (if k' = k then v else dict_get d k' x)"
  by (simp add: dict_get_def map_of_dict_set)

lemma dict_has_set: "dict_has (dict_set d k v) k' = (k' = k \<or> dict_has d k')"
  by (simp add: dict_has_def map_of_dict_set)

lemma dict_has_map_of: "dict_has d k \<longleftrightarrow> map_of d k \<noteq> None"
  by (simp add: dict_has_def split: option.split)

lemma map_fst_dict_set: "dict_has d k \<Longrightarrow> map fst (dict_set d k v) = map fst d"
  by (induction d) (auto simp: dict_has_def split: option.splits if_splits)

lemma validate_required_dict:
  "\<exists>d'. validate_required fs (PDict d) = Inr (PDict d')
        \<and> (\<forall>k. map_of d' k =
              (case map_of d k of
                 Some v \<Rightarrow> Some v
               | None \<Rightarrow> if k \<in> set fs then Some (get_default_value k) else None))"
proof (induction fs arbitrary: d)
  case Nil
  then show ?case by (simp split: option.split)
next
  case (Cons f fs)
  show ?case
  proof (cases "dict_has d f")
    case True
    obtain d' where d': "validate_required fs (PDict d) = Inr (PDict d')"
      "\<forall>k. map_of d' k = (case map_of d k of Some v \<Rightarrow> Some v
          | None \<Rightarrow> if k \<in> set fs then Some (get_default_value k) else None)"
      using Cons.IH [of d] by blast
    from True d' show ?thesis
      by (auto simp: dict_has_map_of split: option.splits)
  next
    case False
    let ?d1 = "dict_set d f (get_default_value f)"
    obtain d' where d': "validate_required fs (PDict ?d1) = Inr (PDict d')"
      "\<forall>k. map_of d' k = (case map_of ?d1 k of Some v \<Rightarrow> Some v
          | None \<Rightarrow> if k \<in> set fs then Some (get_default_value k) else None)"
      using Cons.IH [of ?d1] by blast
    from False d' show ?thesis
      by (auto simp: dict_has_map_of map_of_dict_set split: option.splits)
  qed
qed

lemma default_values:
  "get_default_value ''clause_type'' = PStr ''Unknown''"
  "get_default_value ''summary'' = PStr ''No summary available''"
  "get_default_value ''risk_flag'' = PBool False"
  by (simp_all add: get_default_value_def dict_get_def)

text \<open>The parser on a decoded object.\<close>

lemma parse_structured:
  assumes "loads (strip_code_fence t) = Inr (PDict d)"
  shows "\<exists>a. parse_gemini_response loads t = Inr a
     \<and> map_of a ''clause_type'' = Some (dict_get d ''clause_type'' (PStr ''Unknown''))
     \<and> map_of a ''summary'' = Some (dict_get d ''summary'' (PStr ''No summary available''))
     \<and> map_of a ''risk_flag'' = Some (dict_get d ''risk_flag'' (PBool False))
     \<and> map_of a ''confidence'' = Some (dict_get d ''confidence'' (PFloat (Finite (7 / 10))))
     \<and> map_of a ''risk_reason'' =
         (if truthy (dict_get d ''risk_flag'' (PBool False))
             \<and> \<not> truthy (dict_get d ''risk_reason'' PNone)
          then Some (PStr ''Potential risk detected but no specific reason provided'')
          else map_of d ''risk_reason'')
     \<and> (\<forall>k v. map_of d k = Some v \<and> k \<noteq> ''risk_reason'' \<longrightarrow> map_of a k = Some v)"
proof -
  obtain d1 where v: "validate_required required_fields (PDict d) = Inr (PDict d1)"
    and m: "\<forall>k. map_of d1 k = (case map_of d k of Some v \<Rightarrow> Some v
          | None \<Rightarrow> if k \<in> set required_fields then Some (get_default_value k) else None)"
    using validate_required_dict by blast
  have g: "dict_get d1 ''risk_flag'' (PBool False) = dict_get d ''risk_flag'' (PBool False)"
       "dict_get d1 ''risk_reason'' PNone = dict_get d ''risk_reason'' PNone"
    using m by (simp_all add: dict_get_def required_fields_def default_values split: option.splits)
  let ?c = "truthy (dict_get d ''risk_flag'' (PBool False))
             \<and> \<not> truthy (dict_get d ''risk_reason'' PNone)"
  let ?d2 = "if ?c then dict_set d1 ''risk_reason''
                 (PStr ''Potential risk detected but no specific reason provided'') else d1"
  let ?d3 = "if dict_has ?d2 ''confidence'' then ?d2
             else dict_set ?d2 ''confidence'' (PFloat (Finite (7 / 10)))"
  have p: "parse_gemini_response loads t = Inr ?d3"
    using assms v g by (simp add: parse_gemini_response_def Let_def)
  have m2: "\<forall>k. map_of ?d2 k = (if k = ''risk_reason'' \<and> ?c
      then Some (PStr ''Potential risk detected but no specific reason provided'')
      else map_of d1 k)"
    by (auto simp: map_of_dict_set)
  have m3: "\<forall>k. map_of ?d3 k = (if k = ''confidence'' \<and> map_of ?d2 ''confidence'' = None
      then Some (PFloat (Finite (7 / 10))) else map_of ?d2 k)"
    by (simp add: map_of_dict_set dict_has_map_of)
  have "map_of ?d3 ''clause_type'' = Some (dict_get d ''clause_type'' (PStr ''Unknown''))"
    unfolding m3 [rule_format] m2 [rule_format] m [rule_format]
    by (simp add: dict_get_def required_fields_def default_values split: option.splits)
  moreover have "map_of ?d3 ''summary'' = Some (dict_get d ''summary'' (PStr ''No summary available''))"
    unfolding m3 [rule_format] m2 [rule_format] m [rule_format]
    by (simp add: dict_get_def required_fields_def default_values split: option.splits)
  moreover have "map_of ?d3 ''risk_flag'' = Some (dict_get d ''risk_flag'' (PBool False))"
    unfolding m3 [rule_format] m2 [rule_format] m [rule_format]
    by (simp add: dict_get_def required_fields_def default_values split: option.splits)
  moreover have "map_of ?d3 ''confidence'' = Some (dict_get d ''confidence'' (PFloat (Finite (7 / 10))))"
    unfolding m3 [rule_format] m2 [rule_format] m [rule_format]
    by (simp add: dict_get_def required_fields_def default_values split: option.splits)
  moreover have "map_of ?d3 ''risk_reason'' =
         (if ?c then Some (PStr ''Potential risk detected but no specific reason provided'')
          else map_of d ''risk_reason'')"
    unfolding m3 [rule_format] m2 [rule_format] m [rule_format]
    by (simp add: dict_get_def required_fields_def default_values split: option.splits)
  moreover have "\<forall>k v. map_of d k = Some v \<and> k \<noteq> ''risk_reason'' \<longrightarrow> map_of ?d3 k = Some v"
    unfolding m3 [rule_format] m2 [rule_format] m [rule_format]
    by (simp add: dict_get_def required_fields_def default_values split: option.splits)
  ultimately show ?thesis using p by blast
qed

lemma length_analyze_from: "length (analyze_from loads service k clauses) = length clauses"
  by (induction clauses arbitrary: k) auto

lemma nth_analyze_from:
  "i < length clauses \<Longrightarrow>
   analyze_from loads service k clauses ! i
     = analyze_one loads (service (k + i) (clauses ! i)) (clauses ! i)"
proof (induction clauses arbitrary: k i)
  case Nil
  then show ?case by simp
next
  case (Cons c clauses)
  show ?case
  proof (cases i)
    case 0
    then show ?thesis by simp
  next
    case (Suc j)
    with Cons.prems have "j < length clauses" by simp
    from Cons.IH [OF this, of "Suc k"] Suc show ?thesis by simp
  qed
qed

lemma original_text_analyze_one: "original_text (analyze_one loads r c) = c"
  by (simp add: analyze_one_def fallback_data_def split: sum.split)

lemma analyze_one_failed:
  "(case r of Inl e \<Rightarrow> True | Inr None \<Rightarrow> True
     | Inr (Some t) \<Rightarrow> t = [] \<or> isl (parse_gemini_response loads t))
   \<Longrightarrow> analyze_one loads r c = fallback_data c"
  by (auto simp: analyze_one_def analyze_single_clause_def isl_def
           split: sum.splits option.splits if_splits)

section \<open>The response parser and the analyzer\<close>

lemma strip_unchanged:
  assumes "s \<noteq> []" "\<not> is_space (hd s)" "\<not> is_space (last s)"
  shows "strip s = s"
proof -
  from assms have "dropWhile is_space s = s" by (cases s) auto
  moreover from assms have "dropWhile is_space (rev s) = rev s"
    by (cases "rev s") (auto simp: last_rev [symmetric] simp del: last_rev)
  ultimately show ?thesis by (simp add: strip_def)
qed

lemma startswith_append: "startswith (p @ s) p"
  by (induction p) auto

lemma strip_code_fence_fenced:
  "strip_code_fence (''```json'' @ body @ ''```'') = strip body"
proof -
  let ?t = "''```json'' @ body @ ''```''"
  have "strip ?t = ?t"
    by (rule strip_unchanged) (simp_all add: is_space_def)
  moreover have "startswith ?t ''```json''"
    by (rule startswith_append)
  moreover have "endswith (body @ ''```'') ''```''"
    using startswith_append [of "rev ''```''" "rev body"] by (simp add: endswith_def)
  ultimately show ?thesis
    by (simp add: strip_code_fence_def Let_def)
qed

lemma non_json_fields:
  "map fst (parse_non_json_response t) =
     [''clause_type'', ''summary'', ''risk_flag'', ''risk_reason'', ''confidence'']
   \<and> map_of (parse_non_json_response t) ''clause_type'' =
       Some (PStr (case search_group type_prefix type_group t of
                     Some g \<Rightarrow> strip g | None \<Rightarrow> ''Unknown''))
   \<and> map_of (parse_non_json_response t) ''summary'' =
       Some (PStr (case search_group summary_prefix summary_group t of
                     Some g \<Rightarrow> strip g | None \<Rightarrow> ''Could not parse AI response properly''))
   \<and> map_of (parse_non_json_response t) ''risk_flag'' =
       Some (PBool (list_ex (contains (lower t)) risk_keywords))
   \<and> map_of (parse_non_json_response t) ''risk_reason'' =
       Some (PStr (if list_ex (contains (lower t)) risk_keywords
                   then ''Potential risks mentioned in analysis'' else []))
   \<and> map_of (parse_non_json_response t) ''confidence'' = Some (PFloat (Finite (1 / 2)))"
  by (simp add: parse_non_json_response_def Let_def split: option.split)

text \<open>
  C2. The analyzer returns one record for each clause, in the order of the clauses, and
  is a total function: the \<open>except Exception\<close> branch takes every exception of a turn.
  When the service call raises or gives no text, or the parser raises, the record of that
  clause is \<open>fallback_data\<close>. The record at index \<open>i\<close> depends on nothing but clause
  \<open>i\<close> and the outcome of its own call: another service that behaves the same at
  \<open>i\<close> gives the same record at \<open>i\<close>, whatever it does at the other clauses.
\<close>

theorem analyze_clauses_one_per_clause:
  "length (analyze_clauses_with_gemini loads service clauses) = length clauses
   \<and> (\<forall>i<length clauses.
        original_text (analyze_clauses_with_gemini loads service clauses ! i) = clauses ! i
        \<and> ((case service i (clauses ! i) of
               Inl e \<Rightarrow> True
             | Inr None \<Rightarrow> True
             | Inr (Some t) \<Rightarrow> t = [] \<or> isl (parse_gemini_response loads t))
            \<longrightarrow> analyze_clauses_with_gemini loads service clauses ! i
                  = fallback_data (clauses ! i))
        \<and> (\<forall>service'. service' i (clauses ! i) = service i (clauses ! i)
            \<longrightarrow> analyze_clauses_with_gemini loads service' clauses ! i
                  = analyze_clauses_with_gemini loads service clauses ! i))"
  by (simp add: analyze_clauses_with_gemini_def length_analyze_from nth_analyze_from
        original_text_analyze_one analyze_one_failed)

theorem analyze_clauses_one_per_clause_witness:
  "analyze_clauses_with_gemini (decodes_to ''{}'' (PDict [])) first_call_fails [''a'', ''b''] ! 0
     = fallback_data ''a''
   \<and> analyze_clauses_with_gemini (decodes_to ''{}'' (PDict [])) first_call_fails [''a'', ''b''] ! 1
     = analyze_clauses_with_gemini (decodes_to ''{}'' (PDict [])) every_call_answers [''a'', ''b''] ! 1"
proof -
  let ?L = "decodes_to ''{}'' (PDict [])"
  note t = analyze_clauses_one_per_clause [of ?L every_call_answers "[''a'', ''b'']"]
  note u = analyze_clauses_one_per_clause [of ?L first_call_fails "[''a'', ''b'']"]
  have "analyze_clauses_with_gemini ?L first_call_fails [''a'', ''b''] ! 0 = fallback_data ''a''"
    using u [THEN conjunct2, rule_format, of 0] by (simp add: first_call_fails_def)
  moreover have "analyze_clauses_with_gemini ?L first_call_fails [''a'', ''b''] ! 1
     = analyze_clauses_with_gemini ?L every_call_answers [''a'', ''b''] ! 1"
    using t [THEN conjunct2, rule_format, of 1, THEN conjunct2, THEN conjunct2,
             rule_format, of first_call_fails]
    by (simp add: first_call_fails_def every_call_answers_def)
  ultimately show ?thesis by (rule conjI)
qed

text \<open>
  C6. For a clause whose response was parsed: when the keyword matcher finds a category
  and the parsed result does not flag risk, the record has \<open>risk_flag\<close> true and the
  matcher's findings as \<open>risk_reason\<close>; when the parsed result flags risk, its flag and
  its reason go into the record unchanged, whatever the matcher finds.
\<close>

theorem keyword_risks_merge:
  assumes "response_text \<noteq> []"
      and "parse_gemini_response loads response_text = Inr analysis"
  shows "(detect_keyword_based_risks clause_text \<noteq> []
            \<and> \<not> truthy (dict_get analysis ''risk_flag'' (PBool False))
          \<longrightarrow> risk_flag (analyze_one loads (Inr (Some response_text)) clause_text) = PBool True
              \<and> risk_reason (analyze_one loads (Inr (Some response_text)) clause_text)
                  = PStr (detect_keyword_based_risks clause_text))
       \<and> (truthy (dict_get analysis ''risk_flag'' (PBool False))
          \<longrightarrow> risk_flag (analyze_one loads (Inr (Some response_text)) clause_text)
                  = dict_get analysis ''risk_flag'' (PBool False)
              \<and> risk_reason (analyze_one loads (Inr (Some response_text)) clause_text)
                  = dict_get analysis ''risk_reason'' (PStr []))"
  using assms
  by (simp add: analyze_one_def analyze_single_clause_def Let_def dict_get_set)

theorem keyword_risks_merge_witness:
  "risk_flag (analyze_one (decodes_to ''{}'' (PDict [])) (Inr (Some ''{}''))
                ''Either party may terminate at will.'') = PBool True
   \<and> risk_reason (analyze_one (decodes_to ''{}'' (PDict [])) (Inr (Some ''{}''))
                ''Either party may terminate at will.'')
       = PStr ''Broad termination rights - the other party can end the agreement easily''"
proof -
  have p: "parse_gemini_response (decodes_to ''{}'' (PDict [])) ''{}'' =
     Inr [(''clause_type'', PStr ''Unknown''), (''summary'', PStr ''No summary available''),
          (''risk_flag'', PBool False), (''confidence'', PFloat (Finite (7 / 10)))]"
    by code_simp
  have k: "detect_keyword_based_risks ''Either party may terminate at will.''
     = ''Broad termination rights - the other party can end the agreement easily''"
    by code_simp
  have n: "''{}'' \<noteq> []" by simp
  from keyword_risks_merge [OF n p, of "''Either party may terminate at will.''"]
  show ?thesis unfolding k by (simp add: dict_get_def)
qed

text \<open>
  On the empty object the parser returns a record without \<open>risk_reason\<close>: only the
  three required keys and the confidence are filled in.
\<close>

theorem parse_empty_object_counterexample:
  "parse_gemini_response (decodes_to ''{}'' (PDict [])) ''{}'' =
     Inr [(''clause_type'', PStr ''Unknown''), (''summary'', PStr ''No summary available''),
          (''risk_flag'', PBool False), (''confidence'', PFloat (Finite (7 / 10)))]
   \<and> \<not> dict_has [(''clause_type'', PStr ''Unknown''),
                   (''summary'', PStr ''No summary available''),
                   (''risk_flag'', PBool False),
                   (''confidence'', PFloat (Finite (7 / 10)))] ''risk_reason''"
  by code_simp

text \<open>
  Only JSONDecodeError is caught: when the decoder returns a list, the loop over the
  required fields raises TypeError at the item assignment.
\<close>

lemma parse_non_object_raises:
  "parse_gemini_response (decodes_to ''[]'' (PList [])) ''[]'' = Inl TypeError"
  by code_simp

text \<open>
  C5, as the code has it. When decoding fails with JSONDecodeError or gives an object, the
  parser returns a record. \<open>clause_type\<close>, \<open>summary\<close>, \<open>risk_flag\<close> and
  \<open>confidence\<close> are always in it. After a decoding failure the record has exactly the
  five fields, each the value the regular expressions recover or else its default. For an
  object, every entry of the object other than \<open>risk_reason\<close> is kept, an absent field
  takes its default, and \<open>risk_reason\<close> is in the record exactly when the object has it
  or flags risk.
\<close>

theorem parse_gemini_response_populated:
  assumes "loads (strip_code_fence t) = Inl JSONDecodeError
           \<or> (\<exists>d. loads (strip_code_fence t) = Inr (PDict d))"
  shows "\<exists>a. parse_gemini_response loads t = Inr a
     \<and> dict_has a ''clause_type'' \<and> dict_has a ''summary'' \<and> dict_has a ''risk_flag''
     \<and> dict_has a ''confidence''
     \<and> (loads (strip_code_fence t) = Inl JSONDecodeError \<longrightarrow>
          map fst a = [''clause_type'', ''summary'', ''risk_flag'', ''risk_reason'', ''confidence'']
          \<and> map_of a ''clause_type'' =
              Some (PStr (case search_group type_prefix type_group t of
                            Some g \<Rightarrow> strip g | None \<Rightarrow> ''Unknown''))
          \<and> map_of a ''summary'' =
              Some (PStr (case search_group summary_prefix summary_group t of
                            Some g \<Rightarrow> strip g
                          | None \<Rightarrow> ''Could not parse AI response properly''))
          \<and> map_of a ''risk_flag'' = Some (PBool (list_ex (contains (lower t)) risk_keywords))
          \<and> map_of a ''risk_reason'' =
              Some (PStr (if list_ex (contains (lower t)) risk_keywords
                          then ''Potential risks mentioned in analysis'' else []))
          \<and> map_of a ''confidence'' = Some (PFloat (Finite (1 / 2))))
     \<and> (\<forall>d. loads (strip_code_fence t) = Inr (PDict d) \<longrightarrow>
          (\<forall>k v. map_of d k = Some v \<and> k \<noteq> ''risk_reason'' \<longrightarrow> map_of a k = Some v)
          \<and> map_of a ''clause_type'' = Some (dict_get d ''clause_type'' (PStr ''Unknown''))
          \<and> map_of a ''summary'' = Some (dict_get d ''summary'' (PStr ''No summary available''))
          \<and> map_of a ''risk_flag'' = Some (dict_get d ''risk_flag'' (PBool False))
          \<and> map_of a ''confidence'' = Some (dict_get d ''confidence'' (PFloat (Finite (7 / 10))))
          \<and> (dict_has a ''risk_reason'' \<longleftrightarrow>
               dict_has d ''risk_reason'' \<or> truthy (dict_get d ''risk_flag'' (PBool False))))"
  using assms
proof
  assume e: "loads (strip_code_fence t) = Inl JSONDecodeError"
  then have "parse_gemini_response loads t = Inr (parse_non_json_response t)"
    by (simp add: parse_gemini_response_def)
  with e non_json_fields [of t] show ?thesis
    by (simp add: dict_has_map_of)
next
  assume "\<exists>d. loads (strip_code_fence t) = Inr (PDict d)"
  then obtain d where d: "loads (strip_code_fence t) = Inr (PDict d)" by blast
  from parse_structured [of loads t d, OF d] obtain a where a: "parse_gemini_response loads t = Inr a"
     "map_of a ''clause_type'' = Some (dict_get d ''clause_type'' (PStr ''Unknown''))"
     "map_of a ''summary'' = Some (dict_get d ''summary'' (PStr ''No summary available''))"
     "map_of a ''risk_flag'' = Some (dict_get d ''risk_flag'' (PBool False))"
     "map_of a ''confidence'' = Some (dict_get d ''confidence'' (PFloat (Finite (7 / 10))))"
     "map_of a ''risk_reason'' =
         (if truthy (dict_get d ''risk_flag'' (PBool False))
             \<and> \<not> truthy (dict_get d ''risk_reason'' PNone)
          then Some (PStr ''Potential risk detected but no specific reason provided'')
          else map_of d ''risk_reason'')"
     "\<forall>k v. map_of d k = Some v \<and> k \<noteq> ''risk_reason'' \<longrightarrow> map_of a k = Some v"
    by blast
  have r: "dict_has a ''risk_reason'' \<longleftrightarrow>
       dict_has d ''risk_reason'' \<or> truthy (dict_get d ''risk_flag'' (PBool False))"
    using a(6) by (auto simp: dict_has_map_of dict_get_def split: option.splits if_splits)
  from a r d show ?thesis
    by (simp add: dict_has_map_of)
qed

theorem parse_gemini_response_populated_witness:
  "map_of (projr (parse_gemini_response (decodes_to ''{}'' (PDict [])) ''Type: Payment''))
     ''clause_type'' = Some (PStr ''Payment'')
   \<and> map fst (projr (parse_gemini_response (decodes_to ''{}'' (PDict [])) ''Type: Payment''))
     = [''clause_type'', ''summary'', ''risk_flag'', ''risk_reason'', ''confidence'']"
proof -
  let ?L = "decodes_to ''{}'' (PDict [])"
  have f: "strip_code_fence ''Type: Payment'' = ''Type: Payment''" by code_simp
  have e: "?L (strip_code_fence ''Type: Payment'') = Inl JSONDecodeError"
    unfolding f by (simp add: decodes_to_def)
  have g: "search_group type_prefix type_group ''Type: Payment'' = Some ''Payment''"
    by code_simp
  have s: "strip ''Payment'' = ''Payment''" by code_simp
  from parse_gemini_response_populated [of ?L "''Type: Payment''", OF disjI1, OF e]
  obtain a where a: "parse_gemini_response ?L ''Type: Payment'' = Inr a"
    and i: "?L (strip_code_fence ''Type: Payment'') = Inl JSONDecodeError \<longrightarrow>
      map fst a = [''clause_type'', ''summary'', ''risk_flag'', ''risk_reason'', ''confidence'']
      \<and> map_of a ''clause_type'' =
              Some (PStr (case search_group type_prefix type_group ''Type: Payment'' of
                            Some g \<Rightarrow> strip g | None \<Rightarrow> ''Unknown''))
      \<and> map_of a ''summary'' =
              Some (PStr (case search_group summary_prefix summary_group ''Type: Payment'' of
                            Some g \<Rightarrow> strip g
                          | None \<Rightarrow> ''Could not parse AI response properly''))
      \<and> map_of a ''risk_flag'' =
              Some (PBool (list_ex (contains (lower ''Type: Payment'')) risk_keywords))
      \<and> map_of a ''risk_reason'' =
              Some (PStr (if list_ex (contains (lower ''Type: Payment'')) risk_keywords
                          then ''Potential risks mentioned in analysis'' else []))
      \<and> map_of a ''confidence'' = Some (PFloat (Finite (1 / 2)))"
    by (elim exE conjE)
  from i e have "map fst a =
      [''clause_type'', ''summary'', ''risk_flag'', ''risk_reason'', ''confidence'']"
    and "map_of a ''clause_type'' =
              Some (PStr (case search_group type_prefix type_group ''Type: Payment'' of
                            Some g \<Rightarrow> strip g | None \<Rightarrow> ''Unknown''))"
    by blast+
  with a show ?thesis by (simp add: g s)
qed

text \<open>
  On the fenced example the parser returns a record without \<open>risk_reason\<close>, not one
  whose \<open>risk_reason\<close> is the empty string.
\<close>

theorem parse_fenced_payment_counterexample:
  "parse_gemini_response (decodes_to payment_object (PDict payment_dict)) fenced_payment =
     Inr [(''clause_type'', PStr ''Payment''), (''summary'', PStr ''...''),
          (''risk_flag'', PBool False), (''confidence'', PFloat (Finite (7 / 10)))]
   \<and> map_of [(''clause_type'', PStr ''Payment''), (''summary'', PStr ''...''),
              (''risk_flag'', PBool False), (''confidence'', PFloat (Finite (7 / 10)))]
        ''risk_reason'' \<noteq> Some (PStr [])"
  unfolding fenced_payment_def payment_object_def payment_dict_def by code_simp

text \<open>
  C8, as the code has it. A response between \<open>```json\<close> and \<open>```\<close> is decoded
  without its fence. When decoding gives an object, the parser returns a record in which
  an absent \<open>clause_type\<close>, \<open>summary\<close> or \<open>risk_flag\<close> has its default, an absent
  \<open>confidence\<close> is 0.7, and the other entries of the object are kept; \<open>risk_reason\<close>
  is the placeholder when the object flags risk without a reason, and otherwise is as in
  the object: absent from the record when absent from the object.
\<close>

theorem parse_gemini_response_structured:
  assumes "loads (strip_code_fence t) = Inr (PDict d)"
  shows "strip_code_fence (''```json'' @ body @ ''```'') = strip body
     \<and> (\<exists>a. parse_gemini_response loads t = Inr a
     \<and> map_of a ''clause_type'' = Some (dict_get d ''clause_type'' (PStr ''Unknown''))
     \<and> map_of a ''summary'' = Some (dict_get d ''summary'' (PStr ''No summary available''))
     \<and> map_of a ''risk_flag'' = Some (dict_get d ''risk_flag'' (PBool False))
     \<and> map_of a ''confidence'' = Some (dict_get d ''confidence'' (PFloat (Finite (7 / 10))))
     \<and> map_of a ''risk_reason'' =
         (if truthy (dict_get d ''risk_flag'' (PBool False))
             \<and> \<not> truthy (dict_get d ''risk_reason'' PNone)
          then Some (PStr ''Potential risk detected but no specific reason provided'')
          else map_of d ''risk_reason'')
     \<and> (\<forall>k v. map_of d k = Some v \<and> k \<noteq> ''risk_reason'' \<longrightarrow> map_of a k = Some v))"
  using parse_structured [of loads t d, OF assms] strip_code_fence_fenced [of body] by blast

theorem parse_gemini_response_structured_witness:
  "map_of (projr (parse_gemini_response (decodes_to payment_object (PDict payment_dict))
                    fenced_payment)) ''confidence'' = Some (PFloat (Finite (7 / 10)))
   \<and> map_of (projr (parse_gemini_response (decodes_to payment_object (PDict payment_dict))
                    fenced_payment)) ''risk_flag'' = Some (PBool False)
   \<and> map_of (projr (parse_gemini_response (decodes_to payment_object (PDict payment_dict))
                    fenced_payment)) ''risk_reason'' = None"
proof -
  let ?L = "decodes_to payment_object (PDict payment_dict)"
  have f: "strip_code_fence fenced_payment = payment_object"
    unfolding fenced_payment_def payment_object_def by code_simp
  have e: "?L (strip_code_fence fenced_payment) = Inr (PDict payment_dict)"
    unfolding f by (simp add: decodes_to_def)
  from parse_gemini_response_structured [of ?L fenced_payment payment_dict, OF e, THEN conjunct2]
  obtain a where "parse_gemini_response ?L fenced_payment = Inr a"
    "map_of a ''risk_flag'' = Some (dict_get payment_dict ''risk_flag'' (PBool False))"
    "map_of a ''confidence'' = Some (dict_get payment_dict ''confidence'' (PFloat (Finite (7 / 10))))"
    "map_of a ''risk_reason'' =
         (if truthy (dict_get payment_dict ''risk_flag'' (PBool False))
             \<and> \<not> truthy (dict_get payment_dict ''risk_reason'' PNone)
          then Some (PStr ''Potential risk detected but no specific reason provided'')
          else map_of payment_dict ''risk_reason'')"
    by blast
  then show ?thesis by (simp add: payment_dict_def dict_get_def)
qed

text \<open>
  On the example of the specification the numbered strategy finds the two sections, yet
  \<open>detect_clauses\<close> returns one clause, the whole text, not two.
\<close>

theorem two_sections_whole:
  "detect_numbered_clauses (clean_text_for_clause_detection two_sections) =
     [''1. Term. This agreement lasts one year.'',
      ''2. Termination. Either party may terminate at will.'']
   \<and> detect_clauses two_sections = [two_sections]
   \<and> detect_keyword_based_risks ''2. Termination. Either party may terminate at will.''
       = ''Broad termination rights - the other party can end the agreement easily''"
  unfolding two_sections_def by code_simp

text \<open>
  C4, as the code has it. On the example of the specification the numbered strategy
  finds the sections that start with 1. and 2., but the first has 39 characters and the
  closing filter keeps only clauses longer than 50, so \<open>detect_clauses\<close> returns
  exactly one clause. The keyword matcher returns the broad termination rights both on
  the second section and on the clause returned.
\<close>

theorem two_sections_one_clause:
  "detect_numbered_clauses (clean_text_for_clause_detection two_sections) =
     [''1. Term. This agreement lasts one year.'',
      ''2. Termination. Either party may terminate at will.'']
   \<and> length (strip ''1. Term. This agreement lasts one year.'') = 39
   \<and> length (detect_clauses two_sections) = 1
   \<and> detect_keyword_based_risks (hd (detect_clauses two_sections))
       = ''Broad termination rights - the other party can end the agreement easily''
   \<and> detect_keyword_based_risks ''2. Termination. Either party may terminate at will.''
       = ''Broad termination rights - the other party can end the agreement easily''"
  unfolding two_sections_def by code_simp

text \<open>
  Two numbered sections that both pass the closing filter also come back as one clause:
  \<open>detect_clauses\<close> takes the numbered clauses only when there are more than two,
  while \<open>detect_numbered_clauses\<close> asks for two matches and the header strategy for
  two clauses.
\<close>

lemma two_long_sections_whole:
  "detect_numbered_clauses (clean_text_for_clause_detection two_long_sections) =
     [''1. The supplier delivers the goods to the buyer each month.'',
      ''2. The buyer pays the supplier within thirty days of delivery.'']
   \<and> detect_clauses two_long_sections = [two_long_sections]"
  unfolding two_long_sections_def by code_simp

end
